theory Spec2Isabelle
  imports Complex_Main "HOL-Library.Word" "HOL-Library.Signed_Division"
begin

section \<open>Shared data: bytes, PCM16 samples, Python exceptions\<close>

text \<open>
  The speech core of the repository is three Python classes: \<^verbatim>\<open>AudioManager\<close>
  (audio_manager.py), \<^verbatim>\<open>OpenAIRealtimeClient\<close> (realtime_client.py) and
  \<^verbatim>\<open>EnhancedDialogueSystem\<close> (enhanced_dialogue_system.py). Each object is a record,
  each method a function from the record to the updated record, each external effect
  (a device call, a callback, a network call) an entry appended to a log.

  A \<^verbatim>\<open>bytes\<close> value is a list of 8-bit words and a \<^verbatim>\<open>np.int16\<close> sample a 16-bit word.
  Python floats and \<^verbatim>\<open>np.float32\<close> samples are modelled as exact rationals: rounding of
  the floating-point operations is not modelled.
\<close>

type_synonym byte = "8 word"
type_synonym int16 = "16 word"

datatype py_error = ValueError | AttributeError | KeyError | ZeroDivisionError

text \<open>\<^verbatim>\<open>arr.tobytes()\<close> of an int16 array: two bytes per sample, low byte first.\<close>

fun tobytes :: "int16 list \<Rightarrow> byte list" where
  "tobytes [] = []"
| "tobytes (w # ws) = ucast w # ucast (drop_bit 8 w) # tobytes ws"

text \<open>
  \<^verbatim>\<open>np.frombuffer(chunk, dtype=np.int16)\<close>: raises ValueError when the number of bytes is
  odd.
\<close>

fun frombuffer :: "byte list \<Rightarrow> py_error + int16 list" where
  "frombuffer [] = Inr []"
| "frombuffer [b] = Inl ValueError"
| "frombuffer (lo # hi # bs) =
     (case frombuffer bs of
        Inl e \<Rightarrow> Inl e
      | Inr ws \<Rightarrow> Inr ((push_bit 8 (ucast hi) + ucast lo) # ws))"

text \<open>
  \<^verbatim>\<open>x.astype(np.int16)\<close> of a float: the fraction is cut off (rounding toward zero). A
  value in the int16 range is kept as it is. Beyond the range NumPy leaves the result to
  the platform; the model wraps modulo \<open>2^16\<close>, and what is proved below about converted
  samples is about values in the range.
\<close>

definition trunc_toward_zero :: "rat \<Rightarrow> int" where
  "trunc_toward_zero y = (if 0 \<le> y then \<lfloor>y\<rfloor> else \<lceil>y\<rceil>)"

definition astype_int16 :: "rat \<Rightarrow> int16" where
  "astype_int16 y = word_of_int (trunc_toward_zero y)"

text \<open>
  \<^verbatim>\<open>np.sqrt(np.mean(a ** 2))\<close> is compared with a threshold in two places. The
  square root is avoided by comparing squares; the mean of an empty array is NaN, and
  every comparison with NaN is False.
\<close>

definition mean_square :: "rat list \<Rightarrow> rat" where
  "mean_square xs = sum_list (map (\<lambda>x. x * x) xs) / of_nat (length xs)"

definition rms_gt :: "rat list \<Rightarrow> rat \<Rightarrow> bool" where
  "rms_gt xs t = (xs \<noteq> [] \<and> (t < 0 \<or> t * t < mean_square xs))"

definition rms_lt :: "rat list \<Rightarrow> rat \<Rightarrow> bool" where
  "rms_lt xs t = (xs \<noteq> [] \<and> 0 < t \<and> mean_square xs < t * t)"

section \<open>AudioManager (audio_manager.py)\<close>

datatype handle = Handle

datatype audio_event =
    InputStreamStart | InputStreamStop | InputStreamClose
  | OutputThreadStart | OutputThreadJoin
  | OnAudioInput "byte list"

record audio_manager =
  sample_rate :: nat
  channels :: nat
  chunk_size :: nat
  input_stream :: "handle option"
  output_stream :: "handle option"
  input_queue :: "byte list list"
  output_queue :: "byte list list"
  is_recording :: bool
  is_playing :: bool
  should_stop :: bool
  on_audio_input :: bool
  output_thread :: "handle option"
  input_volume :: rat
  output_volume :: rat
  vad_threshold :: rat
  silence_duration :: rat
  last_speech_time :: rat
  audio_log :: "audio_event list"

text \<open>
  \<^verbatim>\<open>AudioManager.__init__\<close>. Both queues are \<^verbatim>\<open>queue.Queue()\<close> with no \<^verbatim>\<open>maxsize\<close>:
  a list, oldest entry first. \<open>on_audio_input\<close> says whether a callback is registered.
\<close>

definition AudioManager_init :: "nat \<Rightarrow> nat \<Rightarrow> nat \<Rightarrow> audio_manager" where
  "AudioManager_init rate chans chunk =
     \<lparr> sample_rate = rate, channels = chans, chunk_size = chunk,
       input_stream = None, output_stream = None,
       input_queue = [], output_queue = [],
       is_recording = False, is_playing = False, should_stop = False,
       on_audio_input = False, output_thread = None,
       input_volume = 1, output_volume = 1,
       vad_threshold = 1 / 100, silence_duration = 1 / 2, last_speech_time = 0,
       audio_log = [] \<rparr>"

text \<open>
  \<^verbatim>\<open>start_recording\<close>. The device either works, or \<^verbatim>\<open>sd.InputStream(...)\<close> raises
  (no stream object is stored), or the stored stream's \<^verbatim>\<open>start()\<close> raises; the handler
  of either exception only clears \<^verbatim>\<open>is_recording\<close>.
\<close>

datatype device_result = DeviceOk | OpenFails | StartFails

definition start_recording :: "device_result \<Rightarrow> audio_manager \<Rightarrow> audio_manager" where
  "start_recording device s =
     (if is_recording s then s
      else (case device of
              DeviceOk \<Rightarrow>
                s\<lparr> is_recording := True, should_stop := False,
                   input_stream := Some Handle,
                   audio_log := audio_log s @ [InputStreamStart] \<rparr>
            | OpenFails \<Rightarrow> s\<lparr> is_recording := False, should_stop := False \<rparr>
            | StartFails \<Rightarrow>
                s\<lparr> is_recording := False, should_stop := False,
                   input_stream := Some Handle \<rparr>))"

text \<open>
  The capture callback \<^verbatim>\<open>audio_callback(indata, ...)\<close> of \<^verbatim>\<open>start_recording\<close>; \<open>now\<close>
  is the value of \<^verbatim>\<open>time.time()\<close>.
\<close>

definition capture_samples :: "rat \<Rightarrow> rat list \<Rightarrow> int16 list" where
  "capture_samples volume indata = map (\<lambda>x. astype_int16 (x * volume * 32767)) indata"

definition capture_callback :: "rat \<Rightarrow> rat list \<Rightarrow> audio_manager \<Rightarrow> audio_manager" where
  "capture_callback now indata s =
     (let audio_int16 = capture_samples (input_volume s) indata;
          s1 = (if rms_gt (map (\<lambda>w. of_int (sint w)) audio_int16) (vad_threshold s)
                then s\<lparr> last_speech_time := now \<rparr> else s);
          s2 = s1\<lparr> input_queue := input_queue s1 @ [tobytes audio_int16] \<rparr>
      in if on_audio_input s2
         then s2\<lparr> audio_log := audio_log s2 @ [OnAudioInput (tobytes audio_int16)] \<rparr>
         else s2)"

definition stop_recording :: "audio_manager \<Rightarrow> audio_manager" where
  "stop_recording s =
     (if \<not> is_recording s then s
      else (let s1 = s\<lparr> is_recording := False \<rparr>
            in case input_stream s1 of
                 None \<Rightarrow> s1
               | Some h \<Rightarrow> s1\<lparr> input_stream := None,
                               audio_log := audio_log s1 @ [InputStreamStop, InputStreamClose] \<rparr>))"

text \<open>
  \<^verbatim>\<open>start_playback\<close> starts the worker thread, which opens the output stream.
  \<open>device_ok\<close> is whether the worker's \<^verbatim>\<open>sd.OutputStream(...)\<close> succeeds.
\<close>

definition start_playback :: "bool \<Rightarrow> audio_manager \<Rightarrow> audio_manager" where
  "start_playback device_ok s =
     (if is_playing s then s
      else s\<lparr> is_playing := True, should_stop := False,
              output_thread := Some Handle,
              output_stream := (if device_ok then Some Handle else None),
              audio_log := audio_log s @ [OutputThreadStart] \<rparr>)"

text \<open>
  \<^verbatim>\<open>stop_playback\<close>. The worker closes the output stream when it sees the flags;
  \<open>worker_exits\<close> is whether it does so within the one second of \<^verbatim>\<open>join(timeout=1.0)\<close>.
\<close>

definition stop_playback :: "bool \<Rightarrow> audio_manager \<Rightarrow> audio_manager" where
  "stop_playback worker_exits s =
     (if \<not> is_playing s then s
      else (let s1 = s\<lparr> is_playing := False, should_stop := True \<rparr>
            in case output_thread s1 of
                 None \<Rightarrow> s1
               | Some h \<Rightarrow> s1\<lparr> output_thread := None,
                               output_stream := (if worker_exits then None else output_stream s1),
                               audio_log := audio_log s1 @ [OutputThreadJoin] \<rparr>))"

text \<open>\<^verbatim>\<open>set_volumes(input_volume=None, output_volume=None)\<close>.\<close>

definition set_volumes :: "rat option \<Rightarrow> rat option \<Rightarrow> audio_manager \<Rightarrow> audio_manager" where
  "set_volumes iv ov s =
     (let s1 = (case iv of None \<Rightarrow> s
                | Some v \<Rightarrow> s\<lparr> input_volume := max 0 (min 1 v) \<rparr>)
      in case ov of None \<Rightarrow> s1
         | Some v \<Rightarrow> s1\<lparr> output_volume := max 0 (min 1 v) \<rparr>)"

text \<open>Both stored volumes lie in [0.0, 1.0].\<close>

definition volumes_in_range :: "audio_manager \<Rightarrow> bool" where
  "volumes_in_range s =
     (0 \<le> input_volume s \<and> input_volume s \<le> 1 \<and> 0 \<le> output_volume s \<and> output_volume s \<le> 1)"

text \<open>A run of \<^verbatim>\<open>set_volumes\<close> calls, each with its pair of optional arguments.\<close>

fun set_volumes_calls :: "(rat option \<times> rat option) list \<Rightarrow> audio_manager \<Rightarrow> audio_manager" where
  "set_volumes_calls [] s = s"
| "set_volumes_calls ((iv, ov) # cs) s = set_volumes_calls cs (set_volumes iv ov s)"

text \<open>\<^verbatim>\<open>get_audio_chunk\<close>: the oldest queued input frame, or None on an empty queue.\<close>

definition get_audio_chunk :: "audio_manager \<Rightarrow> byte list option \<times> audio_manager" where
  "get_audio_chunk s =
     (case input_queue s of
        [] \<Rightarrow> (None, s)
      | c # q \<Rightarrow> (Some c, s\<lparr> input_queue := q \<rparr>))"

definition clear_queues :: "audio_manager \<Rightarrow> audio_manager" where
  "clear_queues s = s\<lparr> input_queue := [], output_queue := [] \<rparr>"

text \<open>A run of capture callbacks, one per pair of clock value and raw frame.\<close>

fun capture_run :: "(rat \<times> rat list) list \<Rightarrow> audio_manager \<Rightarrow> audio_manager" where
  "capture_run [] s = s"
| "capture_run ((now, indata) # fs) s = capture_run fs (capture_callback now indata s)"

text \<open>
  The playback callback \<^verbatim>\<open>audio_callback(outdata, frames, ...)\<close> of \<^verbatim>\<open>playback_worker\<close>.
  \<open>buffer\<close> is the worker's \<^verbatim>\<open>nonlocal buffer\<close> of decoded samples. The first loop
  takes chunks from the output queue while the buffer is shorter than \<open>frames\<close>; a chunk
  with an odd number of bytes makes \<^verbatim>\<open>np.frombuffer\<close> raise after the chunk has left the
  queue, and only \<^verbatim>\<open>queue.Empty\<close> is caught there.
\<close>

fun pull_chunks ::
  "nat \<Rightarrow> byte list list \<Rightarrow> int16 list \<Rightarrow> py_error option \<times> byte list list \<times> int16 list" where
  "pull_chunks frames [] buffer = (None, [], buffer)"
| "pull_chunks frames (c # q) buffer =
     (if length buffer < frames
      then (case frombuffer c of
              Inl e \<Rightarrow> (Some e, q, buffer)
            | Inr audio_array \<Rightarrow> pull_chunks frames q (buffer @ audio_array))
      else (None, c # q, buffer))"

text \<open>
  The result is what was written to \<^verbatim>\<open>outdata\<close> (or the exception that left the
  callback), the buffer afterwards and the manager afterwards. The stream is mono
  (\<^verbatim>\<open>channels = 1\<close>, the only value the repository constructs), so \<^verbatim>\<open>outdata\<close> is a list
  of \<open>frames\<close> samples.
\<close>

definition playback_callback ::
  "nat \<Rightarrow> int16 list \<Rightarrow> audio_manager \<Rightarrow> (py_error + rat list) \<times> int16 list \<times> audio_manager" where
  "playback_callback frames buffer s =
     (case pull_chunks frames (output_queue s) buffer of
        (Some e, q, b) \<Rightarrow> (Inl e, b, s\<lparr> output_queue := q \<rparr>)
      | (None, q, b) \<Rightarrow>
          if frames \<le> length b
          then (Inr (map (\<lambda>w. of_int (sint w) / 32767 * output_volume s) (take frames b)),
                drop frames b, s\<lparr> output_queue := q \<rparr>)
          else (Inr (replicate frames 0), b, s\<lparr> output_queue := q \<rparr>))"

text \<open>
  The manager that \<^verbatim>\<open>EnhancedDialogueSystem\<close> constructs:
  \<^verbatim>\<open>AudioManager(sample_rate=24000, ...)\<close> with the default \<^verbatim>\<open>channels=1\<close> and
  \<^verbatim>\<open>chunk_size=1024\<close>.
\<close>

definition dialogue_manager :: audio_manager where
  "dialogue_manager = AudioManager_init 24000 1 1024"

text \<open>The samples a queued chunk decodes to (none when it does not decode).\<close>

definition chunk_samples :: "byte list \<Rightarrow> int16 list" where
  "chunk_samples c = (case frombuffer c of Inl e \<Rightarrow> [] | Inr ws \<Rightarrow> ws)"

text \<open>\<^verbatim>\<open>play_audio_chunk\<close>: playback is started when it is not running, then the chunk is queued.\<close>

definition play_audio_chunk :: "bool \<Rightarrow> byte list \<Rightarrow> audio_manager \<Rightarrow> audio_manager" where
  "play_audio_chunk device_ok audio_data s =
     (let s1 = (if \<not> is_playing s then start_playback device_ok s else s)
      in s1\<lparr> output_queue := output_queue s1 @ [audio_data] \<rparr>)"

section \<open>OpenAIRealtimeClient (realtime_client.py)\<close>

record voice_config =
  voice :: string
  instructions :: string
  sample :: string

datatype client_event =
    ConnectAttempt nat
  | Sleep nat
  | SpawnListener
  | SendCancel
  | SetInterruptEvent
  | OnError string

text \<open>
  The fields of the client that the modelled methods read or write.
  \<open>on_error_callback\<close> says whether an error callback is registered; its calls are
  logged as \<open>OnError\<close> with the message.
\<close>

record realtime_client =
  websocket :: "handle option"
  is_connected :: bool
  client_is_recording :: bool
  client_is_playing :: bool
  is_processing :: bool
  on_error_callback :: bool
  npc_voices :: "string \<rightharpoonup> voice_config"
  client_log :: "client_event list"

definition HR_config :: voice_config where
  "HR_config =
     \<lparr> voice = ''alloy'',
       instructions =
         ''You are Sarah Chen, HR Director at Venture Builder AI. '' @ [CHR 0x0A] @
         ''                Speak in a warm, professional tone. Keep responses conversational and helpful.'' @ [CHR 0x0A] @
         ''                Be empathetic and supportive in your interactions.'',
       sample = ''Welcome to Venture Builder AI! How can I help you today?'' \<rparr>"

definition CEO_config :: voice_config where
  "CEO_config =
     \<lparr> voice = ''echo'',
       instructions =
         ''You are Alex Rivera, CEO of Venture Builder AI. '' @ [CHR 0x0A] @
         ''                Speak with authority, vision, and a touch of inspiration. '' @ [CHR 0x0A] @
         ''                Be confident and forward-thinking in your responses.'',
       sample =
         ''I'' @ [CHR 0x27] @ ''m Alex Rivera, CEO. Let'' @ [CHR 0x27] @
         ''s build the future together!'' \<rparr>"

definition Engineer_config :: voice_config where
  "Engineer_config =
     \<lparr> voice = ''fable'',
       instructions =
         ''You are Maya Patel, Lead Engineer at Venture Builder AI. '' @ [CHR 0x0A] @
         ''                Speak with technical expertise and enthusiasm. Be precise and helpful with technical questions.'' @ [CHR 0x0A] @
         ''                Show passion for innovation and problem-solving.'',
       sample =
         ''Hi! I'' @ [CHR 0x27] @
         ''m Maya, your technical lead. What can I help you build today?'' \<rparr>"

definition OpenAIRealtimeClient_init :: realtime_client where
  "OpenAIRealtimeClient_init =
     \<lparr> websocket = None, is_connected = False,
       client_is_recording = False, client_is_playing = False, is_processing = False,
       on_error_callback = False,
       npc_voices = [''HR'' \<mapsto> HR_config, ''CEO'' \<mapsto> CEO_config,
                     ''Engineer'' \<mapsto> Engineer_config],
       client_log = [] \<rparr>"

text \<open>\<^verbatim>\<open>set_callbacks(on_error=f)\<close> with a callback \<open>f\<close>: the error callback is registered.\<close>

definition set_callbacks_on_error :: "realtime_client \<Rightarrow> realtime_client" where
  "set_callbacks_on_error s = s\<lparr> on_error_callback := True \<rparr>"

text \<open>A fresh client on which an error callback has been registered.\<close>

definition registered_client :: realtime_client where
  "registered_client = set_callbacks_on_error OpenAIRealtimeClient_init"

text \<open>
  \<^verbatim>\<open>connect\<close>. \<open>transport a\<close> is whether \<^verbatim>\<open>websockets.connect(...)\<close> succeeds at attempt
  \<open>a\<close>; a failed attempt is logged and followed by \<^verbatim>\<open>asyncio.sleep(2)\<close>. The loop is
  \<^verbatim>\<open>for attempt in range(max_retries)\<close>.
\<close>

definition max_retries :: nat where
  "max_retries = 3"

fun connect_attempts ::
  "(nat \<Rightarrow> bool) \<Rightarrow> nat list \<Rightarrow> realtime_client \<Rightarrow> bool \<times> realtime_client" where
  "connect_attempts transport [] s =
     (let s1 = s\<lparr> is_connected := False \<rparr>
      in (False,
          if on_error_callback s1
          then s1\<lparr> client_log := client_log s1 @ [OnError ''Connection failed after retries.''] \<rparr>
          else s1))"
| "connect_attempts transport (attempt # rest) s =
     (if transport attempt
      then (True, s\<lparr> websocket := Some Handle, is_connected := True,
                     client_log := client_log s @ [ConnectAttempt attempt, SpawnListener] \<rparr>)
      else connect_attempts transport rest
             (s\<lparr> client_log := client_log s @ [ConnectAttempt attempt, Sleep 2] \<rparr>))"

definition connect :: "(nat \<Rightarrow> bool) \<Rightarrow> realtime_client \<Rightarrow> bool \<times> realtime_client" where
  "connect transport s = connect_attempts transport [0 ..< max_retries] s"

text \<open>
  \<^verbatim>\<open>interrupt_response\<close>; \<open>send_ok\<close> is whether \<^verbatim>\<open>websocket.send\<close> returns (when it
  raises, the handler only logs).
\<close>

definition interrupt_response :: "bool \<Rightarrow> realtime_client \<Rightarrow> realtime_client" where
  "interrupt_response send_ok s =
     (if \<not> is_connected s \<or> websocket s = None then s
      else if send_ok
        then s\<lparr> is_processing := False, client_is_playing := False,
                client_log := client_log s @ [SendCancel, SetInterruptEvent] \<rparr>
        else s)"

text \<open>
  \<^verbatim>\<open>get_npc_voice_config\<close> is \<^verbatim>\<open>self.npc_voices.get(npc_name, self.npc_voices["HR"])\<close>:
  the default is evaluated before the lookup, so a dictionary without the key "HR"
  raises KeyError.
\<close>

definition get_npc_voice_config :: "string \<Rightarrow> realtime_client \<Rightarrow> py_error + voice_config" where
  "get_npc_voice_config npc_name s =
     (case npc_voices s ''HR'' of
        None \<Rightarrow> Inl KeyError
      | Some fallback \<Rightarrow>
          (case npc_voices s npc_name of
             None \<Rightarrow> Inr fallback
           | Some config \<Rightarrow> Inr config))"

definition set_npc_voice_config ::
  "string \<Rightarrow> string \<Rightarrow> string \<Rightarrow> string \<Rightarrow> realtime_client \<Rightarrow> realtime_client" where
  "set_npc_voice_config npc_name v i smp s =
     s\<lparr> npc_voices := (npc_voices s)(npc_name \<mapsto> \<lparr> voice = v, instructions = i, sample = smp \<rparr>) \<rparr>"

text \<open>A run of \<^verbatim>\<open>set_npc_voice_config\<close> calls: name, voice, instructions, sample.\<close>

fun set_npc_voice_config_calls ::
  "(string \<times> string \<times> string \<times> string) list \<Rightarrow> realtime_client \<Rightarrow> realtime_client" where
  "set_npc_voice_config_calls [] s = s"
| "set_npc_voice_config_calls ((n, v, i, smp) # cs) s =
     set_npc_voice_config_calls cs (set_npc_voice_config n v i smp s)"

subsection \<open>Inbound error events\<close>

text \<open>
  A decoded message is a JSON value; a JSON object is a Python dict, modelled as an
  association list in which the first binding of a key is the one the dict holds.
\<close>

datatype json =
    JNull | JBool bool | JNum rat | JStr string
  | JArr "json list" | JObj "(string \<times> json) list"

text \<open>\<^verbatim>\<open>d.get(key, default)\<close> on a dict.\<close>

definition dict_get :: "(string \<times> json) list \<Rightarrow> string \<Rightarrow> json \<Rightarrow> json" where
  "dict_get d k dflt = (case map_of d k of None \<Rightarrow> dflt | Some v \<Rightarrow> v)"

text \<open>
  \<^verbatim>\<open>str.lower()\<close> on strings of 8-bit characters: the letters A to Z are mapped to a to z,
  every other character is kept.
\<close>

definition lower_char :: "char \<Rightarrow> char" where
  "lower_char c =
     (if 65 \<le> (of_char c :: nat) \<and> (of_char c :: nat) \<le> 90
      then char_of ((of_char c :: nat) + 32) else c)"

definition lower :: "string \<Rightarrow> string" where
  "lower s = map lower_char s"

text \<open>\<^verbatim>\<open>sub in s\<close> on strings: \<open>sub\<close> occurs in \<open>s\<close> as a contiguous run.\<close>

fun starts_with :: "string \<Rightarrow> string \<Rightarrow> bool" where
  "starts_with [] s = True"
| "starts_with (x # xs) [] = False"
| "starts_with (x # xs) (y # ys) = (x = y \<and> starts_with xs ys)"

fun str_in :: "string \<Rightarrow> string \<Rightarrow> bool" where
  "str_in sub [] = starts_with sub []"
| "str_in sub (c # cs) = (starts_with sub (c # cs) \<or> str_in sub cs)"

text \<open>
  The branch \<^verbatim>\<open>elif message_type == "error"\<close> of \<^verbatim>\<open>_handle_message(data)\<close>. \<^verbatim>\<open>.get\<close> on
  a value that is not a dict and \<^verbatim>\<open>.lower()\<close> on a value that is not a string raise
  AttributeError.
\<close>

definition handle_error_message :: "json \<Rightarrow> realtime_client \<Rightarrow> py_error + realtime_client" where
  "handle_error_message data s =
     (case data of
        JObj d \<Rightarrow>
          (case dict_get d ''error'' (JObj []) of
             JObj e \<Rightarrow>
               (case dict_get e ''message'' (JStr ''Unknown error'') of
                  JStr error_msg \<Rightarrow>
                    if str_in ''no active response found'' (lower error_msg)
                    then Inr (s\<lparr> is_processing := False, client_is_playing := False \<rparr>)
                    else (let s1 = s\<lparr> is_processing := False, client_is_playing := False \<rparr>
                          in Inr (if on_error_callback s1
                                  then s1\<lparr> client_log := client_log s1 @ [OnError error_msg] \<rparr>
                                  else s1))
                | _ \<Rightarrow> Inl AttributeError)
           | _ \<Rightarrow> Inl AttributeError)
      | _ \<Rightarrow> Inl AttributeError)"

text \<open>
  \<^verbatim>\<open>_listen_for_messages\<close> calls the handler inside \<^verbatim>\<open>try ... except Exception\<close>, which
  only logs: an exception of the handler leaves the client as it was.
\<close>

definition listen_error_message :: "json \<Rightarrow> realtime_client \<Rightarrow> realtime_client" where
  "listen_error_message data s =
     (case handle_error_message data s of Inl e \<Rightarrow> s | Inr s' \<Rightarrow> s')"

text \<open>The error event \<^verbatim>\<open>{"type": "error", "error": {"message": msg}}\<close>.\<close>

definition error_event :: "string \<Rightarrow> json" where
  "error_event msg = JObj [(''type'', JStr ''error''), (''error'', JObj [(''message'', JStr msg)])]"

section \<open>EnhancedDialogueSystem (enhanced_dialogue_system.py)\<close>

text \<open>
  \<^verbatim>\<open>_on_audio_input(audio_data)\<close>: the frame is decoded, multiplied by \<^verbatim>\<open>audio_gain\<close>,
  discarded (None) when its RMS is below 0.0001 and otherwise put on \<^verbatim>\<open>audio_buffer\<close>.
\<close>

definition audio_gain :: rat where
  "audio_gain = 5"

definition on_audio_input_frame :: "byte list \<Rightarrow> py_error + rat list option" where
  "on_audio_input_frame audio_data =
     (case frombuffer audio_data of
        Inl e \<Rightarrow> Inl e
      | Inr ws \<Rightarrow>
          (let audio_np = map (\<lambda>w. of_int (sint w) * audio_gain) ws
           in if rms_lt audio_np (1 / 10000) then Inr None else Inr (Some audio_np)))"

text \<open>
  \<^verbatim>\<open>_on_audio_received(audio_data)\<close>, the client's audio callback: the bytes decoded
  from a \<^verbatim>\<open>response.audio.delta\<close> event go to \<^verbatim>\<open>play_audio_chunk\<close> as they are when
  there are any. Their length is not looked at.
\<close>

definition on_audio_received :: "bool \<Rightarrow> byte list \<Rightarrow> audio_manager \<Rightarrow> audio_manager" where
  "on_audio_received device_ok audio_data s =
     (if audio_data \<noteq> [] then play_audio_chunk device_ok audio_data s else s)"

text \<open>
  \<^verbatim>\<open>_process_audio_input\<close>, the frame-accumulation loop. Its local state is
  \<^verbatim>\<open>accumulated_audio\<close> and \<^verbatim>\<open>accumulated_duration\<close>; the calls it schedules on the
  client are logged.
\<close>

record accumulator =
  accumulated_audio :: "rat list list"
  accumulated_duration :: rat

datatype net_call = SendAudioChunk "byte list" | CommitAudioBuffer

definition empty_accumulator :: accumulator where
  "empty_accumulator = \<lparr> accumulated_audio = [], accumulated_duration = 0 \<rparr>"

definition loop_chunk_size :: nat where
  "loop_chunk_size = 1024"

definition chunk_duration :: "nat \<Rightarrow> rat" where
  "chunk_duration rate = of_nat loop_chunk_size / of_nat rate"

definition min_commit_duration :: rat where
  "min_commit_duration = 1 / 2"

text \<open>\<^verbatim>\<open>np.clip(a, -32768, 32767).astype(np.int16).tobytes()\<close>.\<close>

definition pcm16_bytes :: "rat list \<Rightarrow> byte list" where
  "pcm16_bytes a = tobytes (map (\<lambda>x. astype_int16 (max (- 32768) (min 32767 x))) a)"

text \<open>
  One iteration of \<^verbatim>\<open>while self.speech_mode\<close>. The event \<open>ev\<close> of the iteration
  is a pair: the value \<open>conn\<close> of
  \<^verbatim>\<open>self.realtime_client.is_connected and self.async_loop is not None\<close> in that
  iteration, and the result of \<^verbatim>\<open>audio_buffer.get(timeout=0.1)\<close> (None for
  \<^verbatim>\<open>queue.Empty\<close>, after which the loop continues).
\<close>

definition process_iteration ::
  "nat \<Rightarrow> bool \<times> rat list option \<Rightarrow> accumulator \<times> net_call list \<Rightarrow> accumulator \<times> net_call list" where
  "process_iteration rate ev st =
     (case ev of
        (conn, None) \<Rightarrow> st
      | (conn, Some audio_data) \<Rightarrow>
          (case st of (acc, calls) \<Rightarrow>
             (let audio = accumulated_audio acc @ [audio_data];
                  duration = accumulated_duration acc + chunk_duration rate
              in if min_commit_duration \<le> duration
                 then (let audio_to_send = concat audio
                       in if audio_to_send = [] then (empty_accumulator, calls)
                          else (empty_accumulator,
                                calls @ (if conn
                                         then [SendAudioChunk (pcm16_bytes audio_to_send),
                                               CommitAudioBuffer]
                                         else [])))
                 else (\<lparr> accumulated_audio = audio, accumulated_duration = duration \<rparr>, calls))))"

fun process_events ::
  "nat \<Rightarrow> (bool \<times> rat list option) list \<Rightarrow> accumulator \<times> net_call list \<Rightarrow> accumulator \<times> net_call list" where
  "process_events rate [] st = st"
| "process_events rate (ev # evs) st = process_events rate evs (process_iteration rate ev st)"

text \<open>
  The whole method: \<^verbatim>\<open>chunk_duration = chunk_size / sample_rate\<close> raises
  ZeroDivisionError on a zero sample rate, before the loop; \<open>evs\<close> are the iterations
  made while \<^verbatim>\<open>speech_mode\<close> stays on.
\<close>

definition process_audio_input ::
  "nat \<Rightarrow> (bool \<times> rat list option) list \<Rightarrow> py_error + accumulator \<times> net_call list" where
  "process_audio_input rate evs =
     (if rate = 0 then Inl ZeroDivisionError
      else Inr (process_events rate evs (empty_accumulator, [])))"

text \<open>The number of \<^verbatim>\<open>commit_audio_buffer()\<close> calls in a log.\<close>

definition commit_count :: "net_call list \<Rightarrow> nat" where
  "commit_count calls = length (filter (\<lambda>c. c = CommitAudioBuffer) calls)"

text \<open>The events of a run in which the client stays connected and every get returns a frame.\<close>

definition pushed :: "rat list list \<Rightarrow> (bool \<times> rat list option) list" where
  "pushed frames = map (\<lambda>f. (True, Some f)) frames"


section \<open>Volumes\<close>

lemma set_volumes_input:
  "input_volume (set_volumes iv ov s) =
     (case iv of None \<Rightarrow> input_volume s | Some v \<Rightarrow> max 0 (min 1 v))"
  by (simp add: set_volumes_def split: option.splits)

lemma set_volumes_output:
  "output_volume (set_volumes iv ov s) =
     (case ov of None \<Rightarrow> output_volume s | Some v \<Rightarrow> max 0 (min 1 v))"
  by (simp add: set_volumes_def split: option.splits)

lemma set_volumes_in_range:
  "volumes_in_range s \<Longrightarrow> volumes_in_range (set_volumes iv ov s)"
  by (auto simp: volumes_in_range_def set_volumes_input set_volumes_output split: option.splits)

lemma set_volumes_calls_in_range:
  "volumes_in_range s \<Longrightarrow> volumes_in_range (set_volumes_calls cs s)"
  by (induction cs arbitrary: s) (auto simp: set_volumes_in_range)

lemma init_volumes_in_range: "volumes_in_range (AudioManager_init r c k)"
  by (simp add: volumes_in_range_def AudioManager_init_def)

text \<open>
  Claim C8. Each value given to \<^verbatim>\<open>set_volumes\<close> is stored clamped into [0, 1] (so -1 is
  stored as 0 and 2 as 1), an omitted argument leaves its volume as it was, and after any
  run of calls on a freshly constructed AudioManager both stored volumes lie in [0, 1].
\<close>

theorem set_volumes_clamps:
  "(\<forall>v. iv = Some v \<longrightarrow>
        input_volume (set_volumes iv ov s) = max 0 (min 1 v)
      \<and> 0 \<le> input_volume (set_volumes iv ov s) \<and> input_volume (set_volumes iv ov s) \<le> 1)
 \<and> (\<forall>v. ov = Some v \<longrightarrow>
        output_volume (set_volumes iv ov s) = max 0 (min 1 v)
      \<and> 0 \<le> output_volume (set_volumes iv ov s) \<and> output_volume (set_volumes iv ov s) \<le> 1)
 \<and> (iv = None \<longrightarrow> input_volume (set_volumes iv ov s) = input_volume s)
 \<and> (ov = None \<longrightarrow> output_volume (set_volumes iv ov s) = output_volume s)
 \<and> volumes_in_range (set_volumes_calls cs (AudioManager_init r c k))"
  by (auto simp: set_volumes_input set_volumes_output
                 set_volumes_calls_in_range init_volumes_in_range)

theorem set_volumes_clamps_witness:
  "input_volume (set_volumes (Some (- 1)) None (AudioManager_init 24000 1 1024)) = 0
 \<and> output_volume (set_volumes (Some (- 1)) None (AudioManager_init 24000 1 1024)) = 1
 \<and> output_volume (set_volumes None (Some 2) (AudioManager_init 24000 1 1024)) = 1
 \<and> input_volume (set_volumes None (Some 2) (AudioManager_init 24000 1 1024)) = 1
 \<and> volumes_in_range
      (set_volumes_calls [(Some (- 1), Some 2)] (AudioManager_init 24000 1 1024))"
  using set_volumes_clamps [of "Some (- 1)" None "AudioManager_init 24000 1 1024"
                               "[(Some (- 1), Some 2)]" 24000 1 1024]
        set_volumes_clamps [of None "Some 2" "AudioManager_init 24000 1 1024" "[]" 24000 1 1024]
  by (simp add: AudioManager_init_def)

section \<open>Stopping\<close>

text \<open>
  Claim C9. \<^verbatim>\<open>stop_recording\<close> and \<^verbatim>\<open>stop_playback\<close> are idempotent: a second call in a
  row leaves the manager (its fields and the log of device calls) as the first call left
  it, whatever the worker does at the join; a call while the stream is not running
  returns at the guard and changes nothing.
\<close>

theorem stop_idempotent:
  "stop_recording (stop_recording s) = stop_recording s
 \<and> (\<not> is_recording s \<longrightarrow> stop_recording s = s)
 \<and> stop_playback w2 (stop_playback w1 s) = stop_playback w1 s
 \<and> (\<not> is_playing s \<longrightarrow> stop_playback w1 s = s)"
  by (simp add: stop_recording_def stop_playback_def Let_def split: option.splits)

theorem stop_idempotent_witness:
  "stop_recording (stop_recording (start_recording DeviceOk dialogue_manager))
     = stop_recording (start_recording DeviceOk dialogue_manager)
 \<and> is_recording (start_recording DeviceOk dialogue_manager)
 \<and> \<not> is_recording (stop_recording (start_recording DeviceOk dialogue_manager))
 \<and> audio_log (stop_recording (start_recording DeviceOk dialogue_manager))
     = [InputStreamStart, InputStreamStop, InputStreamClose]
 \<and> stop_recording dialogue_manager = dialogue_manager
 \<and> stop_playback True (stop_playback False (start_playback True dialogue_manager))
     = stop_playback False (start_playback True dialogue_manager)
 \<and> is_playing (start_playback True dialogue_manager)
 \<and> stop_playback True dialogue_manager = dialogue_manager"
  using stop_idempotent [of "start_recording DeviceOk dialogue_manager" True False]
        stop_idempotent [of "start_playback True dialogue_manager" True False]
        stop_idempotent [of "dialogue_manager" True True]
  by (simp add: dialogue_manager_def AudioManager_init_def start_recording_def start_playback_def
                stop_recording_def)

section \<open>Capture\<close>

lemma floor_half: "\<lfloor>(y::rat) / 2\<rfloor> = \<lfloor>y\<rfloor> div 2"
  by linarith

lemma ceiling_half: "(y::rat) < 0 \<Longrightarrow> \<lceil>y / 2\<rceil> = - ((- \<lceil>y\<rceil>) div 2)"
  by linarith

lemma trunc_half: "trunc_toward_zero (y / 2) = trunc_toward_zero y sdiv 2"
proof (cases "0 \<le> y")
  case True
  then have "0 \<le> \<lfloor>y\<rfloor>" by simp
  with True show ?thesis
    by (simp add: trunc_toward_zero_def floor_half signed_divide_int_def sgn_if)
next
  case False
  then have neg: "y < 0" by simp
  then have "\<lceil>y\<rceil> \<le> 0" by (simp add: ceiling_le_zero)
  with neg show ?thesis
    by (auto simp: trunc_toward_zero_def ceiling_half signed_divide_int_def sgn_if)
qed

lemma sint16_of_int:
  "- 32768 \<le> k \<Longrightarrow> k < 32768 \<Longrightarrow> sint (word_of_int k :: int16) = k"
  by (simp add: int_word_sint)

lemma trunc_bounds:
  fixes b :: int
  assumes "- of_int b \<le> y" "y \<le> of_int b"
  shows "- b \<le> trunc_toward_zero y \<and> trunc_toward_zero y \<le> b"
proof (cases "0 \<le> y")
  case True
  then have t: "trunc_toward_zero y = \<lfloor>y\<rfloor>" by (simp add: trunc_toward_zero_def)
  have "0 \<le> \<lfloor>y\<rfloor>" using True by simp
  moreover have "\<lfloor>y\<rfloor> \<le> b" using assms(2) by (simp add: floor_le_iff)
  ultimately show ?thesis unfolding t by linarith
next
  case False
  then have t: "trunc_toward_zero y = \<lceil>y\<rceil>" by (simp add: trunc_toward_zero_def)
  have "\<lceil>y\<rceil> \<le> 0" using False by (simp add: ceiling_le_iff)
  moreover have "- b \<le> \<lceil>y\<rceil>" using assms(1) by (simp add: le_ceiling_iff)
  ultimately show ?thesis unfolding t by linarith
qed

lemma half_in_range:
  assumes "- 1 \<le> x" "x \<le> (1::rat)"
  shows "sint (astype_int16 (x * 32767 / 2)) = sint (astype_int16 (x * 32767)) sdiv 2"
proof -
  let ?y = "x * 32767"
  have b: "- of_int 32767 \<le> ?y" "?y \<le> of_int 32767" using assms by simp_all
  have b2: "- of_int 32767 \<le> ?y / 2" "?y / 2 \<le> of_int 32767" using assms by simp_all
  have f: "sint (astype_int16 ?y) = trunc_toward_zero ?y"
    using trunc_bounds [OF b] by (simp add: astype_int16_def sint16_of_int)
  have h: "sint (astype_int16 (?y / 2)) = trunc_toward_zero (?y / 2)"
    using trunc_bounds [OF b2] by (simp add: astype_int16_def sint16_of_int)
  show ?thesis using f h by (simp add: trunc_half)
qed

lemma capture_queue:
  "input_queue (capture_callback now indata s) =
     input_queue s @ [tobytes (capture_samples (input_volume s) indata)]"
  by (simp add: capture_callback_def Let_def)

lemma capture_log:
  "audio_log (capture_callback now indata s) =
     audio_log s @ (if on_audio_input s
                    then [OnAudioInput (tobytes (capture_samples (input_volume s) indata))]
                    else [])"
  by (simp add: capture_callback_def Let_def)

lemma capture_run_queue_length:
  "length (input_queue (capture_run fs s)) = length (input_queue s) + length fs"
  by (induction fs arbitrary: s) (auto simp: capture_queue)

text \<open>
  The raw sample 1.0 gives 32767 at volume 1.0 and 16383 at volume 0.5; half of 32767 is
  16383.5, which no PCM16 sample can hold. Every value of this computation (1.0, 0.5,
  32767.0, 16383.5) is exact in \<^verbatim>\<open>float32\<close> too.
\<close>

theorem capture_half_volume_counterexample:
  "map sint (capture_samples
       (input_volume (set_volumes (Some (1 / 2)) None dialogue_manager)) [1]) = [16383]
 \<and> map sint (capture_samples (input_volume dialogue_manager) [1]) = [32767]
 \<and> map (\<lambda>w. rat_of_int (sint w))
       (capture_samples (input_volume (set_volumes (Some (1 / 2)) None dialogue_manager)) [1])
   \<noteq> map (\<lambda>w. (1 / 2) * rat_of_int (sint w))
       (capture_samples (input_volume dialogue_manager) [1])"
proof -
  have half: "input_volume (set_volumes (Some (1 / 2)) None dialogue_manager) = 1 / 2"
    by (simp add: set_volumes_input)
  have full: "input_volume dialogue_manager = 1"
    by (simp add: dialogue_manager_def AudioManager_init_def)
  have a: "map sint (capture_samples (1 / 2) [1]) = [16383]"
    by code_simp
  have b: "map sint (capture_samples 1 [1]) = [32767]"
    by code_simp
  have l: "map (\<lambda>w. rat_of_int (sint w)) (capture_samples (1 / 2) [1])
             = map rat_of_int (map sint (capture_samples (1 / 2) [1]))"
    by (simp only: map_map o_def)
  have r: "map (\<lambda>w. (1 / 2) * rat_of_int (sint w)) (capture_samples 1 [1])
             = map (\<lambda>k. (1 / 2) * rat_of_int k) (map sint (capture_samples 1 [1]))"
    by (simp only: map_map o_def)
  have ne: "map (\<lambda>w. rat_of_int (sint w)) (capture_samples (1 / 2) [1])
             \<noteq> map (\<lambda>w. (1 / 2) * rat_of_int (sint w)) (capture_samples 1 [1])"
    unfolding l r a b by simp
  show ?thesis
    unfolding half full using a b ne by blast
qed

text \<open>
  Claim C7, amended. After \<^verbatim>\<open>set_volumes(input_volume=0.5)\<close>, for raw samples in the
  nominal range [-1, 1], each PCM16 sample of the capture callback is the sample that the
  same raw input gives at volume 1.0, halved and rounded toward zero: the scaling comes
  before the conversion, which cuts the fraction off. It is exactly half only where the
  full-volume sample is even.
\<close>

theorem capture_half_volume:
  assumes "\<forall>x \<in> set indata. - 1 \<le> x \<and> x \<le> 1"
  shows "map sint (capture_samples (input_volume (set_volumes (Some (1 / 2)) ov s)) indata)
       = map (\<lambda>w. sint w sdiv 2) (capture_samples 1 indata)"
  using assms
  by (simp add: capture_samples_def set_volumes_input half_in_range)

theorem capture_half_volume_witness:
  "map sint (capture_samples
       (input_volume (set_volumes (Some (1 / 2)) None (AudioManager_init 24000 1 1024)))
       [1, - 1 / 3, 0])
     = map (\<lambda>w. sint w sdiv 2) (capture_samples 1 [1, - 1 / 3, 0])
 \<and> map sint (capture_samples 1 [1, - 1 / 3, 0]) = [32767, - 10922, 0]"
proof -
  have h: "\<forall>x \<in> set [1, - 1 / 3, 0 :: rat]. - 1 \<le> x \<and> x \<le> 1"
    by simp
  have v: "map sint (capture_samples 1 [1, - 1 / 3, 0]) = [32767, - 10922, 0]"
    by code_simp
  show ?thesis
    by (rule conjI [OF capture_half_volume [OF h] v])
qed

text \<open>
  No bound holds for the input queue: from a fresh manager, \<open>cap + 1\<close> capture callbacks
  leave \<open>cap + 1\<close> frames queued.
\<close>

theorem input_queue_cap_counterexample:
  "\<not> (\<exists>cap. \<forall>fs. length (input_queue (capture_run fs (AudioManager_init 24000 1 1024))) \<le> cap)"
proof
  assume "\<exists>cap. \<forall>fs. length (input_queue (capture_run fs (AudioManager_init 24000 1 1024))) \<le> cap"
  then obtain cap where
    c: "\<And>fs. length (input_queue (capture_run fs (AudioManager_init 24000 1 1024))) \<le> cap"
    by blast
  have "input_queue (AudioManager_init 24000 1 1024) = []"
    by (simp add: AudioManager_init_def)
  then have "length (input_queue (capture_run (replicate (Suc cap) (0, []))
                  (AudioManager_init 24000 1 1024))) = Suc cap"
    by (simp only: capture_run_queue_length length_replicate list.size add_0)
  with c [of "replicate (Suc cap) (0, [])"] show False by simp
qed

text \<open>
  Claim C4, amended. The input queue has no cap: every capture callback appends its frame
  behind all the frames already queued, drops none, and logs nothing but the call of the
  registered input callback; after a run of callbacks the depth is the depth before plus
  the number of callbacks.
\<close>

theorem input_queue_unbounded:
  "input_queue (capture_callback now indata s)
     = input_queue s @ [tobytes (capture_samples (input_volume s) indata)]
 \<and> audio_log (capture_callback now indata s)
     = audio_log s @ (if on_audio_input s
                      then [OnAudioInput (tobytes (capture_samples (input_volume s) indata))]
                      else [])
 \<and> length (input_queue (capture_run fs s)) = length (input_queue s) + length fs"
  by (simp only: capture_queue capture_log capture_run_queue_length simp_thms)

theorem input_queue_unbounded_witness:
  "length (input_queue (capture_run [(0, [1]), (1, [0]), (2, [])] dialogue_manager)) = 3
 \<and> audio_log (capture_callback 0 [1] dialogue_manager) = []"
proof -
  have q: "input_queue dialogue_manager = []"
    and l: "audio_log dialogue_manager = []"
    and c: "\<not> on_audio_input dialogue_manager"
    by (simp_all add: dialogue_manager_def AudioManager_init_def)
  show ?thesis
    using input_queue_unbounded [of 0 "[1]" dialogue_manager "[(0, [1]), (1, [0]), (2, [])]"]
    by (simp add: q l c)
qed

text \<open>The queue shrinks only when a frame is taken from its head or the queues are cleared.\<close>

lemma get_audio_chunk_oldest:
  "input_queue s = c # q \<Longrightarrow> get_audio_chunk s = (Some c, s\<lparr> input_queue := q \<rparr>)"
  by (simp add: get_audio_chunk_def)

lemma clear_queues_empty:
  "input_queue (clear_queues s) = [] \<and> output_queue (clear_queues s) = []"
  by (simp add: clear_queues_def)

section \<open>Playback\<close>

lemma frombuffer_even:
  "even (length c) \<Longrightarrow> \<exists>ws. frombuffer c = Inr ws \<and> length ws = length c div 2"
  by (induction c rule: frombuffer.induct) auto

lemma chunk_samples_even:
  "even (length c) \<Longrightarrow> frombuffer c = Inr (chunk_samples c) \<and> length (chunk_samples c) = length c div 2"
  using frombuffer_even [of c] by (auto simp: chunk_samples_def)

lemma pull_chunks_short:
  "\<forall>c \<in> set q. even (length c) \<Longrightarrow>
   length buffer + sum_list (map (\<lambda>c. length c div 2) q) < frames \<Longrightarrow>
   pull_chunks frames q buffer = (None, [], buffer @ concat (map chunk_samples q))"
proof (induction q arbitrary: buffer)
  case Nil
  then show ?case by simp
next
  case (Cons c q)
  then have ev: "even (length c)" by simp
  have short: "length buffer < frames" using Cons.prems(2) by simp
  have step: "length (buffer @ chunk_samples c) + sum_list (map (\<lambda>c. length c div 2) q) < frames"
    using Cons.prems(2) chunk_samples_even [OF ev] by simp
  have "pull_chunks frames (c # q) buffer = pull_chunks frames q (buffer @ chunk_samples c)"
    using short chunk_samples_even [OF ev] by simp
  also have "\<dots> = (None, [], (buffer @ chunk_samples c) @ concat (map chunk_samples q))"
    using Cons.IH [OF _ step] Cons.prems(1) by simp
  finally show ?case by simp
qed

text \<open>
  When the samples buffered for playback (the worker's buffer and the chunks of the
  output queue, each chunk a whole number of samples) are fewer than the frame asked
  for, the playback callback returns without an exception and writes silence: all
  \<open>frames\<close> samples of \<^verbatim>\<open>outdata\<close> are zero. The chunks have moved from the queue into the
  buffer, where they stay for the next callback.
\<close>

lemma playback_silence_whole_samples:
  assumes "\<forall>c \<in> set (output_queue s). even (length c)"
    and "length buffer + sum_list (map (\<lambda>c. length c div 2) (output_queue s)) < frames"
  shows "playback_callback frames buffer s =
           (Inr (replicate frames 0),
            buffer @ concat (map chunk_samples (output_queue s)),
            s\<lparr> output_queue := [] \<rparr>)"
proof -
  let ?b = "buffer @ concat (map chunk_samples (output_queue s))"
  have len: "length (concat (map chunk_samples q)) = sum_list (map (\<lambda>c. length c div 2) q)"
    if "\<forall>c \<in> set q. even (length c)" for q
    using that by (induction q) (auto simp: chunk_samples_even)
  have "length ?b < frames" using assms len [OF assms(1)] by simp
  then show ?thesis
    using pull_chunks_short [OF assms] by (simp add: playback_callback_def)
qed

lemma playback_silence_example:
  "playback_callback 4 [7] (play_audio_chunk True [0x34, 0x12] dialogue_manager)
     = (Inr [0, 0, 0, 0], [7, 0x1234],
        (play_audio_chunk True [0x34, 0x12] dialogue_manager)\<lparr> output_queue := [] \<rparr>)"
proof -
  let ?s = "play_audio_chunk True [0x34, 0x12] dialogue_manager"
  have q: "output_queue ?s = [[0x34, 0x12]]"
    by (simp add: play_audio_chunk_def start_playback_def dialogue_manager_def
                  AudioManager_init_def)
  have d: "chunk_samples [0x34, 0x12] = [0x1234]"
    by (simp add: chunk_samples_def)
  have r: "replicate 4 (0::rat) = [0, 0, 0, 0]"
    by (simp add: numeral_eq_Suc)
  have h1: "\<forall>c \<in> set (output_queue ?s). even (length c)"
    by (simp add: q)
  have h2: "length [7 :: int16] + sum_list (map (\<lambda>c. length c div 2) (output_queue ?s)) < 4"
    by (simp add: q)
  show ?thesis
    using playback_silence_whole_samples [OF h1 h2]
    by (simp only: q d r list.map concat.simps append.simps)
qed

text \<open>
  A queued chunk with an odd number of bytes is not a sequence of samples. The loop that
  fills the buffer takes it from the queue, \<^verbatim>\<open>np.frombuffer\<close> raises ValueError, and the
  loop's handler catches \<^verbatim>\<open>queue.Empty\<close> only: the exception leaves the callback, and
  nothing is written to \<^verbatim>\<open>outdata\<close>.
\<close>

lemma playback_odd_chunk:
  "playback_callback frames [] (s\<lparr> output_queue := [[b]] \<rparr>) =
     (if 0 < frames then (Inl ValueError, [], s\<lparr> output_queue := [] \<rparr>)
      else (Inr [], [], s\<lparr> output_queue := [[b]] \<rparr>))"
  by (simp add: playback_callback_def)

text \<open>
  Claim C5. An under-filled playback callback is to write silence for the samples that
  are missing and to return without an exception. The code does not do so on every
  under-filled invocation: after an audio delta of one byte has been received on a fresh
  manager, no sample is buffered, a frame of 1024 samples is asked for, and the callback
  raises ValueError instead of writing silence.
\<close>

theorem playback_odd_chunk_raises:
  "playback_callback 1024 [] (on_audio_received True [0x01] dialogue_manager)
     = (Inl ValueError, [],
        (on_audio_received True [0x01] dialogue_manager)\<lparr> output_queue := [] \<rparr>)"
proof -
  let ?s = "on_audio_received True [0x01] dialogue_manager"
  have q: "output_queue ?s = [[0x01]]"
    by (simp add: on_audio_received_def play_audio_chunk_def start_playback_def
                  dialogue_manager_def AudioManager_init_def)
  have "pull_chunks 1024 [[0x01]] [] = (Some ValueError, [], [])"
    by simp
  then show ?thesis
    by (simp add: playback_callback_def q)
qed

section \<open>Connecting\<close>

lemma range_max_retries: "[0 ..< max_retries] = [0, 1, 2]"
  by (simp add: max_retries_def upt_rec numeral_eq_Suc)

lemma connect_all_fail:
  assumes "\<not> transport 0" "\<not> transport 1" "\<not> transport 2"
  shows "connect transport s =
     (False, s\<lparr> is_connected := False,
                 client_log := client_log s @
                   [ConnectAttempt 0, Sleep 2, ConnectAttempt 1, Sleep 2, ConnectAttempt 2, Sleep 2] @
                   (if on_error_callback s then [OnError ''Connection failed after retries.''] else []) \<rparr>)"
  using assms by (simp add: connect_def range_max_retries Let_def)

lemma connect_first_success:
  assumes "a < 3" "transport a" "\<forall>b<a. \<not> transport b"
  shows "connect transport s =
     (True, s\<lparr> websocket := Some Handle, is_connected := True,
                client_log := client_log s @
                  concat (map (\<lambda>b. [ConnectAttempt b, Sleep 2]) [0 ..< a]) @
                  [ConnectAttempt a, SpawnListener] \<rparr>)"
proof -
  consider "a = 0" | "a = 1" | "a = 2" using assms(1) by linarith
  then show ?thesis
  proof cases
    case 1
    then show ?thesis using assms by (simp add: connect_def range_max_retries)
  next
    case 2
    then have "\<not> transport 0" using assms(3) by simp
    with 2 show ?thesis using assms(2) by (simp add: connect_def range_max_retries)
  next
    case 3
    then have "\<not> transport 0" "\<not> transport 1" using assms(3) by simp_all
    moreover have "[0 ..< 2] = [0, Suc 0]" by (simp add: upt_rec numeral_eq_Suc)
    ultimately show ?thesis using 3 assms(2) by (simp add: connect_def range_max_retries)
  qed
qed

text \<open>
  Claim C6. When every attempt fails, \<^verbatim>\<open>connect\<close> makes exactly three attempts, each
  followed by the fixed two-second sleep, returns False without an exception, clears
  \<^verbatim>\<open>is_connected\<close> and calls the registered error callback once, with
  "Connection failed after retries.". When attempt \<open>a\<close> is the first to succeed it
  stops there, sets \<^verbatim>\<open>is_connected\<close>, starts the receive loop task and returns True.
\<close>

theorem connect_retries:
  "((\<forall>a<3. \<not> transport a) \<longrightarrow>
      connect transport s =
        (False, s\<lparr> is_connected := False,
                    client_log := client_log s @
                      [ConnectAttempt 0, Sleep 2, ConnectAttempt 1, Sleep 2,
                       ConnectAttempt 2, Sleep 2] @
                      (if on_error_callback s
                       then [OnError ''Connection failed after retries.''] else []) \<rparr>))
 \<and> (\<forall>a<3. transport a \<and> (\<forall>b<a. \<not> transport b) \<longrightarrow>
      connect transport s =
        (True, s\<lparr> websocket := Some Handle, is_connected := True,
                   client_log := client_log s @
                     concat (map (\<lambda>b. [ConnectAttempt b, Sleep 2]) [0 ..< a]) @
                     [ConnectAttempt a, SpawnListener] \<rparr>))"
proof (intro conjI impI allI)
  assume "\<forall>a<3. \<not> transport a"
  then have "\<not> transport 0" "\<not> transport 1" "\<not> transport 2" by simp_all
  then show "connect transport s =
        (False, s\<lparr> is_connected := False,
                    client_log := client_log s @
                      [ConnectAttempt 0, Sleep 2, ConnectAttempt 1, Sleep 2,
                       ConnectAttempt 2, Sleep 2] @
                      (if on_error_callback s
                       then [OnError ''Connection failed after retries.''] else []) \<rparr>)"
    by (rule connect_all_fail)
next
  fix a
  assume "a < 3" "transport a \<and> (\<forall>b<a. \<not> transport b)"
  then show "connect transport s =
        (True, s\<lparr> websocket := Some Handle, is_connected := True,
                   client_log := client_log s @
                     concat (map (\<lambda>b. [ConnectAttempt b, Sleep 2]) [0 ..< a]) @
                     [ConnectAttempt a, SpawnListener] \<rparr>)"
    using connect_first_success by blast
qed

lemma registered_client_fields:
  "client_log registered_client = []"
  "on_error_callback registered_client"
  "\<not> is_connected registered_client"
  "websocket registered_client = None"
  by (simp_all add: registered_client_def set_callbacks_on_error_def OpenAIRealtimeClient_init_def)

theorem connect_retries_witness:
  "fst (connect (\<lambda>a. False) registered_client) = False
 \<and> is_connected (snd (connect (\<lambda>a. False) registered_client)) = False
 \<and> client_log (snd (connect (\<lambda>a. False) registered_client)) =
      [ConnectAttempt 0, Sleep 2, ConnectAttempt 1, Sleep 2, ConnectAttempt 2, Sleep 2,
       OnError ''Connection failed after retries.'']
 \<and> fst (connect (\<lambda>a. a = 1) registered_client) = True
 \<and> is_connected (snd (connect (\<lambda>a. a = 1) registered_client)) = True
 \<and> client_log (snd (connect (\<lambda>a. a = 1) registered_client)) =
      [ConnectAttempt 0, Sleep 2, ConnectAttempt 1, SpawnListener]"
proof -
  have u: "[0 ..< 1] = [0::nat]" by simp
  show ?thesis
    using connect_retries [of "\<lambda>a. False" registered_client]
          connect_retries [of "\<lambda>a. a = 1" registered_client, THEN conjunct2, rule_format, of 1]
    by (simp add: registered_client_fields u)
qed

section \<open>Voice profiles\<close>

lemma set_calls_HR:
  "npc_voices s ''HR'' \<noteq> None \<Longrightarrow> npc_voices (set_npc_voice_config_calls cs s) ''HR'' \<noteq> None"
  by (induction cs arbitrary: s) (auto simp: set_npc_voice_config_def)

lemma set_calls_HR_kept:
  "''HR'' \<notin> set (map fst cs) \<Longrightarrow>
   npc_voices (set_npc_voice_config_calls cs s) ''HR'' = npc_voices s ''HR''"
  by (induction cs arbitrary: s) (auto simp: set_npc_voice_config_def)

lemma init_HR: "npc_voices OpenAIRealtimeClient_init ''HR'' = Some HR_config"
  by (simp add: OpenAIRealtimeClient_init_def)

text \<open>
  After \<^verbatim>\<open>set_npc_voice_config("HR", "nova", "Be brief.")\<close> the fallback for the
  unknown name "Nobody" is the profile now stored under "HR", not the built-in one.
\<close>

theorem get_npc_voice_config_counterexample:
  "npc_voices (set_npc_voice_config ''HR'' ''nova'' ''Be brief.'' '''' OpenAIRealtimeClient_init)
     ''Nobody'' = None
 \<and> get_npc_voice_config ''Nobody''
      (set_npc_voice_config ''HR'' ''nova'' ''Be brief.'' '''' OpenAIRealtimeClient_init)
     = Inr \<lparr> voice = ''nova'', instructions = ''Be brief.'', sample = '''' \<rparr>
 \<and> \<lparr> voice = ''nova'', instructions = ''Be brief.'', sample = '''' \<rparr> \<noteq> HR_config"
  by (simp add: get_npc_voice_config_def set_npc_voice_config_def OpenAIRealtimeClient_init_def
                HR_config_def)

text \<open>
  Claim C10, amended. On a client whose profiles were changed only through
  \<^verbatim>\<open>set_npc_voice_config\<close>, \<^verbatim>\<open>get_npc_voice_config\<close> never raises: for a name with no
  profile it returns the profile currently stored under "HR", for a name with a profile
  it returns that profile; the profile under "HR" is the built-in one as long as no call
  has replaced it.
\<close>

theorem get_npc_voice_config_fallback:
  "(\<exists>hr. npc_voices (set_npc_voice_config_calls cs OpenAIRealtimeClient_init) ''HR'' = Some hr
        \<and> (npc_voices (set_npc_voice_config_calls cs OpenAIRealtimeClient_init) npc_name = None \<longrightarrow>
             get_npc_voice_config npc_name (set_npc_voice_config_calls cs OpenAIRealtimeClient_init)
               = Inr hr))
 \<and> (\<forall>c. npc_voices (set_npc_voice_config_calls cs OpenAIRealtimeClient_init) npc_name = Some c \<longrightarrow>
        get_npc_voice_config npc_name (set_npc_voice_config_calls cs OpenAIRealtimeClient_init)
          = Inr c)
 \<and> (''HR'' \<notin> set (map fst cs) \<longrightarrow>
        npc_voices (set_npc_voice_config_calls cs OpenAIRealtimeClient_init) ''HR'' = Some HR_config)"
proof -
  let ?s = "set_npc_voice_config_calls cs OpenAIRealtimeClient_init"
  obtain hr where hr: "npc_voices ?s ''HR'' = Some hr"
    using set_calls_HR [of OpenAIRealtimeClient_init cs] init_HR by auto
  show ?thesis
    using hr set_calls_HR_kept [of cs OpenAIRealtimeClient_init] init_HR
    by (auto simp: get_npc_voice_config_def)
qed

theorem get_npc_voice_config_fallback_witness:
  "get_npc_voice_config ''Nobody''
     (set_npc_voice_config_calls [(''Intern'', ''nova'', ''Be brief.'', '''')] OpenAIRealtimeClient_init)
     = Inr HR_config
 \<and> get_npc_voice_config ''Intern''
     (set_npc_voice_config_calls [(''Intern'', ''nova'', ''Be brief.'', '''')] OpenAIRealtimeClient_init)
     = Inr \<lparr> voice = ''nova'', instructions = ''Be brief.'', sample = '''' \<rparr>
 \<and> get_npc_voice_config ''CEO''
     (set_npc_voice_config_calls [(''Intern'', ''nova'', ''Be brief.'', '''')] OpenAIRealtimeClient_init)
     = Inr CEO_config"
  using get_npc_voice_config_fallback [of "[(''Intern'', ''nova'', ''Be brief.'', '''')]" "''Nobody''"]
        get_npc_voice_config_fallback [of "[(''Intern'', ''nova'', ''Be brief.'', '''')]" "''Intern''"]
        get_npc_voice_config_fallback [of "[(''Intern'', ''nova'', ''Be brief.'', '''')]" "''CEO''"]
  by (simp add: set_npc_voice_config_def OpenAIRealtimeClient_init_def)

section \<open>Error events\<close>

lemma starts_with_map: "starts_with sub s \<Longrightarrow> starts_with (map f sub) (map f s)"
  by (induction sub s rule: starts_with.induct) auto

lemma str_in_map: "str_in sub s \<Longrightarrow> str_in (map f sub) (map f s)"
proof (induction s)
  case Nil
  then show ?case using starts_with_map [of sub "[]" f] by simp
next
  case (Cons c cs)
  then show ?case using starts_with_map [of sub "c # cs" f] by auto
qed

lemma lower_phrase: "lower ''no active response found'' = ''no active response found''"
  by (simp add: lower_def lower_char_def)

lemma str_in_lower:
  "str_in ''no active response found'' msg \<Longrightarrow> str_in ''no active response found'' (lower msg)"
  using str_in_map [of "''no active response found''" msg lower_char] lower_phrase
  by (simp add: lower_def)

lemma starts_with_iff: "starts_with sub s \<longleftrightarrow> (\<exists>q. s = sub @ q)"
  by (induction sub s rule: starts_with.induct) auto

lemma str_in_iff: "str_in sub s \<longleftrightarrow> (\<exists>p q. s = p @ sub @ q)"
proof (induction s)
  case Nil
  then show ?case by (cases sub) auto
next
  case (Cons c cs)
  show ?case
  proof
    assume "str_in sub (c # cs)"
    then consider "starts_with sub (c # cs)" | "str_in sub cs" by auto
    then show "\<exists>p q. c # cs = p @ sub @ q"
    proof cases
      case 1
      then obtain q where "c # cs = sub @ q" using starts_with_iff by blast
      then have "c # cs = [] @ sub @ q" by simp
      then show ?thesis by blast
    next
      case 2
      then obtain p q where "cs = p @ sub @ q" using Cons.IH by blast
      then have "c # cs = (c # p) @ sub @ q" by simp
      then show ?thesis by blast
    qed
  next
    assume "\<exists>p q. c # cs = p @ sub @ q"
    then obtain p q where pq: "c # cs = p @ sub @ q" by blast
    show "str_in sub (c # cs)"
    proof (cases p)
      case Nil
      then have "starts_with sub (c # cs)" using pq starts_with_iff by auto
      then show ?thesis by simp
    next
      case (Cons a p')
      then have "cs = p' @ sub @ q" using pq by simp
      then have "str_in sub cs" using Cons.IH by blast
      then show ?thesis by simp
    qed
  qed
qed

text \<open>
  The message "Cancellation failed: No active response found" does not contain the
  phrase as written (capital N), it is an error event like any other, and yet the
  registered error callback is not called: the code compares the lower-cased message.
\<close>

theorem handle_error_message_counterexample:
  "\<not> str_in ''no active response found'' ''Cancellation failed: No active response found''
 \<and> on_error_callback registered_client
 \<and> client_log (listen_error_message
      (error_event ''Cancellation failed: No active response found'') registered_client) = []"
proof -
  have a: "\<not> str_in ''no active response found'' ''Cancellation failed: No active response found''"
    by simp
  have b: "str_in ''no active response found'' (lower ''Cancellation failed: No active response found'')"
    by code_simp
  show ?thesis
    using a b
    by (simp add: listen_error_message_def handle_error_message_def error_event_def dict_get_def
                  registered_client_fields)
qed

text \<open>
  Claim C2, amended. For every error event whose \<^verbatim>\<open>error\<close> field is an object (or
  absent) and whose message is a string (or absent, then "Unknown error"): when the
  lower-cased message contains "no active response found" (as does every message that
  contains it as written) the error callback is not called and \<^verbatim>\<open>is_processing\<close> and
  \<^verbatim>\<open>is_playing\<close> are cleared; otherwise both flags are cleared as well and the error
  callback, when one is registered, is called with the message.
\<close>

theorem handle_error_message_benign:
  assumes "dict_get d ''error'' (JObj []) = JObj e"
    and "dict_get e ''message'' (JStr ''Unknown error'') = JStr msg"
  shows "(str_in ''no active response found'' (lower msg) \<longrightarrow>
            handle_error_message (JObj d) s
              = Inr (s\<lparr> is_processing := False, client_is_playing := False \<rparr>))
       \<and> (\<not> str_in ''no active response found'' (lower msg) \<longrightarrow>
            handle_error_message (JObj d) s
              = Inr (s\<lparr> is_processing := False, client_is_playing := False,
                         client_log := client_log s @
                           (if on_error_callback s then [OnError msg] else []) \<rparr>))
       \<and> (str_in ''no active response found'' msg \<longrightarrow>
            str_in ''no active response found'' (lower msg))"
  using assms str_in_lower [of msg]
  by (simp add: handle_error_message_def Let_def)

theorem handle_error_message_benign_witness:
  "handle_error_message (error_event ''Cancellation failed: no active response found'')
       (interrupt_response True (snd (connect (\<lambda>a. True) registered_client)))
     = Inr ((interrupt_response True (snd (connect (\<lambda>a. True) registered_client)))
              \<lparr> is_processing := False, client_is_playing := False \<rparr>)
 \<and> client_log (interrupt_response True (snd (connect (\<lambda>a. True) registered_client)))
     = [ConnectAttempt 0, SpawnListener, SendCancel, SetInterruptEvent]
 \<and> handle_error_message (error_event ''Rate limit reached'') registered_client
     = Inr (registered_client\<lparr> is_processing := False, client_is_playing := False,
                                 client_log := [OnError ''Rate limit reached''] \<rparr>)"
proof -
  let ?s = "interrupt_response True (snd (connect (\<lambda>a. True) registered_client))"
  have e: "dict_get [(''type'', JStr ''error''), (''error'', JObj [(''message'', JStr m)])]
             ''error'' (JObj []) = JObj [(''message'', JStr m)]" for m
    by (simp add: dict_get_def)
  have m: "dict_get [(''message'', JStr m)] ''message'' (JStr ''Unknown error'') = JStr m" for m
    by (simp add: dict_get_def)
  have y: "str_in ''no active response found''
             (lower ''Cancellation failed: no active response found'')"
    by code_simp
  have n: "\<not> str_in ''no active response found'' (lower ''Rate limit reached'')"
    by code_simp
  have l: "client_log ?s = [ConnectAttempt 0, SpawnListener, SendCancel, SetInterruptEvent]"
    by (simp add: connect_def range_max_retries interrupt_response_def registered_client_fields)
  show ?thesis
    using handle_error_message_benign [OF e m, of "''Cancellation failed: no active response found''" ?s]
          handle_error_message_benign [OF e m, of "''Rate limit reached''" registered_client]
          y n l
    by (simp add: error_event_def registered_client_fields)
qed

section \<open>Accumulation loop\<close>

text \<open>
  A raw frame of 1024 samples (2048 bytes) whose amplified RMS is not below 0.0001 is put
  on \<^verbatim>\<open>audio_buffer\<close> as a frame of 1024 samples.
\<close>

lemma on_audio_input_frame_accepts:
  assumes "length raw = 2048"
    and "\<not> rms_lt (map (\<lambda>w. of_int (sint w) * audio_gain) (chunk_samples raw)) (1 / 10000)"
  shows "on_audio_input_frame raw =
           Inr (Some (map (\<lambda>w. of_int (sint w) * audio_gain) (chunk_samples raw)))
       \<and> length (chunk_samples raw) = 1024"
proof -
  have "even (length raw)" using assms(1) by simp
  then have "frombuffer raw = Inr (chunk_samples raw)" "length (chunk_samples raw) = length raw div 2"
    using chunk_samples_even by blast+
  then show ?thesis using assms by (simp add: on_audio_input_frame_def)
qed

lemma process_events_append:
  "process_events rate (xs @ ys) st = process_events rate ys (process_events rate xs st)"
  by (induction xs arbitrary: st) auto

lemma pushed_append: "pushed (xs @ ys) = pushed xs @ pushed ys"
  by (simp add: pushed_def)

lemma process_events_single:
  "process_events rate (pushed [f]) st = process_iteration rate (True, Some f) st"
  by (simp add: pushed_def)

lemma accumulate_below:
  assumes "0 \<le> chunk_duration rate"
    and "accumulated_duration acc + of_nat (length fs) * chunk_duration rate < min_commit_duration"
  shows "process_events rate (pushed fs) (acc, calls) =
           (\<lparr> accumulated_audio = accumulated_audio acc @ fs,
              accumulated_duration =
                accumulated_duration acc + of_nat (length fs) * chunk_duration rate \<rparr>, calls)"
  using assms(2)
proof (induction fs arbitrary: acc)
  case Nil
  then show ?case by (simp add: pushed_def)
next
  case (Cons f fs)
  let ?d = "accumulated_duration acc + chunk_duration rate"
  let ?acc = "\<lparr> accumulated_audio = accumulated_audio acc @ [f], accumulated_duration = ?d \<rparr>"
  have "0 \<le> of_nat (length fs) * chunk_duration rate"
    using assms(1) by simp
  then have below: "?d < min_commit_duration"
    using Cons.prems by (simp add: algebra_simps)
  have step: "process_iteration rate (True, Some f) (acc, calls) = (?acc, calls)"
    using below by (simp add: process_iteration_def Let_def)
  have rest: "accumulated_duration ?acc + of_nat (length fs) * chunk_duration rate
                < min_commit_duration"
    using Cons.prems by (simp add: algebra_simps)
  show ?case
    using Cons.IH [OF rest] step by (simp add: pushed_def algebra_simps)
qed

lemma commit_iteration:
  assumes "min_commit_duration \<le> accumulated_duration acc + chunk_duration rate"
    and "concat (accumulated_audio acc @ [f]) \<noteq> []"
  shows "process_iteration rate (True, Some f) (acc, calls) =
           (empty_accumulator,
            calls @ [SendAudioChunk (pcm16_bytes (concat (accumulated_audio acc @ [f]))),
                     CommitAudioBuffer])"
  using assms by (simp add: process_iteration_def Let_def)

lemma chunk_duration_24000: "chunk_duration 24000 = 16 / 375"
  by (simp add: chunk_duration_def loop_chunk_size_def)

lemma fewer_than_twelve:
  assumes "length fs < 12"
  shows "process_events 24000 (pushed fs) (empty_accumulator, calls) =
           (\<lparr> accumulated_audio = fs,
              accumulated_duration = of_nat (length fs) * chunk_duration 24000 \<rparr>, calls)"
proof -
  have "length fs \<le> 11" using assms by simp
  then have "(of_nat (length fs) :: rat) \<le> 11" by (metis of_nat_le_iff of_nat_numeral)
  then have "accumulated_duration empty_accumulator + of_nat (length fs) * chunk_duration 24000
          < min_commit_duration"
    by (simp add: empty_accumulator_def chunk_duration_24000 min_commit_duration_def)
  moreover have "0 \<le> chunk_duration 24000" by (simp add: chunk_duration_24000)
  ultimately show ?thesis
    using accumulate_below [of 24000 empty_accumulator fs calls]
    by (simp add: empty_accumulator_def)
qed

lemma twelve_frames:
  assumes "length g = 12" and "concat g \<noteq> []"
  shows "process_events 24000 (pushed g) (empty_accumulator, calls) =
           (empty_accumulator, calls @ [SendAudioChunk (pcm16_bytes (concat g)), CommitAudioBuffer])"
proof -
  have "g \<noteq> []" using assms(1) by auto
  then obtain fs f where g: "g = fs @ [f]" by (metis rev_exhaust)
  have l: "length fs = 11" using assms(1) g by simp
  let ?acc = "\<lparr> accumulated_audio = fs,
                accumulated_duration = of_nat (length fs) * chunk_duration 24000 \<rparr>"
  have first: "process_events 24000 (pushed fs) (empty_accumulator, calls) = (?acc, calls)"
    by (rule fewer_than_twelve) (simp add: l)
  have thr: "min_commit_duration \<le> accumulated_duration ?acc + chunk_duration 24000"
    by (simp add: l chunk_duration_24000 min_commit_duration_def)
  have c: "concat (accumulated_audio ?acc @ [f]) \<noteq> []"
    using assms(2) g by simp
  have "process_events 24000 (pushed g) (empty_accumulator, calls)
      = process_events 24000 (pushed [f])
          (process_events 24000 (pushed fs) (empty_accumulator, calls))"
    by (simp only: g pushed_append process_events_append)
  also have "\<dots> = process_iteration 24000 (True, Some f) (?acc, calls)"
    by (simp only: first process_events_single)
  also have "\<dots> = (empty_accumulator,
       calls @ [SendAudioChunk (pcm16_bytes (concat (accumulated_audio ?acc @ [f]))),
                CommitAudioBuffer])"
    by (rule commit_iteration [OF thr c])
  finally show ?thesis using g by simp
qed

lemma thirty_frames:
  assumes "length frames = 30" and "\<forall>f \<in> set frames. f \<noteq> []"
  shows "process_events 24000 (pushed frames) (empty_accumulator, []) =
           (\<lparr> accumulated_audio = drop 24 frames,
              accumulated_duration = 6 * chunk_duration 24000 \<rparr>,
            [SendAudioChunk (pcm16_bytes (concat (take 12 frames))), CommitAudioBuffer,
             SendAudioChunk (pcm16_bytes (concat (take 12 (drop 12 frames)))), CommitAudioBuffer])"
proof -
  let ?g1 = "take 12 frames" and ?g2 = "take 12 (drop 12 frames)" and ?r = "drop 24 frames"
  have split: "frames = ?g1 @ ?g2 @ ?r"
    by (metis append_take_drop_id drop_drop numeral_Bit0)
  have l1: "length ?g1 = 12" and l2: "length ?g2 = 12" and lr: "length ?r = 6"
    using assms(1) by simp_all
  have ne: "concat g \<noteq> []" if "length g = 12" "set g \<subseteq> set frames" for g
  proof -
    from that(1) obtain f where "f \<in> set g" by (cases g) auto
    with that(2) assms(2) have "f \<in> set g" "f \<noteq> []" by auto
    then show ?thesis by auto
  qed
  have n1: "concat ?g1 \<noteq> []"
    by (rule ne [OF l1]) (rule set_take_subset)
  have n2: "concat ?g2 \<noteq> []"
    by (rule ne [OF l2]) (meson set_take_subset set_drop_subset subset_trans)
  have s1: "process_events 24000 (pushed ?g1) (empty_accumulator, []) =
              (empty_accumulator, [SendAudioChunk (pcm16_bytes (concat ?g1)), CommitAudioBuffer])"
    using twelve_frames [OF l1 n1, of "[]"] by simp
  have s2: "process_events 24000 (pushed ?g2)
              (empty_accumulator, [SendAudioChunk (pcm16_bytes (concat ?g1)), CommitAudioBuffer]) =
              (empty_accumulator,
               [SendAudioChunk (pcm16_bytes (concat ?g1)), CommitAudioBuffer,
                SendAudioChunk (pcm16_bytes (concat ?g2)), CommitAudioBuffer])"
    using twelve_frames [OF l2 n2] by simp
  have s3: "process_events 24000 (pushed ?r) (empty_accumulator, calls) =
              (\<lparr> accumulated_audio = ?r, accumulated_duration = 6 * chunk_duration 24000 \<rparr>, calls)"
    for calls
    using fewer_than_twelve [of ?r calls] lr by simp
  have "process_events 24000 (pushed frames) (empty_accumulator, [])
      = process_events 24000 (pushed ?r)
          (process_events 24000 (pushed ?g2)
             (process_events 24000 (pushed ?g1) (empty_accumulator, [])))"
    using split pushed_append process_events_append by metis
  then show ?thesis
    by (simp only: s1 s2 s3)
qed

text \<open>
  Thirty accepted frames of 1024 samples at 24 kHz make the loop commit twice, at the
  12th and at the 24th frame.
\<close>

theorem thirty_frames_counterexample:
  "(case process_audio_input 24000 (pushed (replicate 30 (replicate 1024 5000))) of
      Inl e \<Rightarrow> None
    | Inr (acc, calls) \<Rightarrow> Some (commit_count calls)) = Some 2"
proof -
  have "length (replicate 30 (replicate 1024 (5000::rat))) = 30"
    by simp
  moreover have "\<forall>f \<in> set (replicate 30 (replicate 1024 (5000::rat))). f \<noteq> []"
    by simp
  ultimately show ?thesis
    using thirty_frames [of "replicate 30 (replicate 1024 5000)"]
    by (simp add: process_audio_input_def commit_count_def)
qed

text \<open>
  Claim C1, amended. When 30 accepted frames of 1024 samples reach the accumulation loop
  at 24 kHz while the client is connected, exactly two \<^verbatim>\<open>commit_audio_buffer()\<close> calls
  are made, not one per frame: nothing is sent during the first 11 frames (0.469 s
  accumulated), the first commit is made at the 12th frame, when the accumulated duration
  first reaches the 0.5 s minimum (0.512 s), and the second at the 24th. Each commit
  sends the concatenated frames and resets the accumulated buffer and duration; the last
  six frames stay accumulated.
\<close>

theorem thirty_frames_two_commits:
  assumes "length frames = 30" and "\<forall>f \<in> set frames. length f = 1024"
  shows "process_audio_input 24000 (pushed (take 11 frames)) =
           Inr (\<lparr> accumulated_audio = take 11 frames,
                   accumulated_duration = 11 * chunk_duration 24000 \<rparr>, [])
       \<and> 11 * chunk_duration 24000 < min_commit_duration
       \<and> min_commit_duration \<le> 12 * chunk_duration 24000
       \<and> process_audio_input 24000 (pushed (take 12 frames)) =
           Inr (empty_accumulator,
                [SendAudioChunk (pcm16_bytes (concat (take 12 frames))), CommitAudioBuffer])
       \<and> process_audio_input 24000 (pushed frames) =
           Inr (\<lparr> accumulated_audio = drop 24 frames,
                   accumulated_duration = 6 * chunk_duration 24000 \<rparr>,
                [SendAudioChunk (pcm16_bytes (concat (take 12 frames))), CommitAudioBuffer,
                 SendAudioChunk (pcm16_bytes (concat (take 12 (drop 12 frames)))),
                 CommitAudioBuffer])
       \<and> commit_count
           [SendAudioChunk (pcm16_bytes (concat (take 12 frames))), CommitAudioBuffer,
            SendAudioChunk (pcm16_bytes (concat (take 12 (drop 12 frames)))),
            CommitAudioBuffer] = 2"
proof -
  have ne: "\<forall>f \<in> set frames. f \<noteq> []"
    using assms(2) by auto
  have l11: "length (take 11 frames) = 11" and l12: "length (take 12 frames) = 12"
    using assms(1) by simp_all
  have a: "process_events 24000 (pushed (take 11 frames)) (empty_accumulator, []) =
             (\<lparr> accumulated_audio = take 11 frames,
                accumulated_duration = 11 * chunk_duration 24000 \<rparr>, [])"
    using fewer_than_twelve [of "take 11 frames" "[]"] l11 by simp
  have "take 12 frames \<noteq> []" using l12 by auto
  then obtain f where "f \<in> set (take 12 frames)" by (cases "take 12 frames") auto
  then have "f \<in> set (take 12 frames)" "f \<noteq> []"
    using ne set_take_subset [of 12 frames] by auto
  then have "concat (take 12 frames) \<noteq> []" by auto
  then have b: "process_events 24000 (pushed (take 12 frames)) (empty_accumulator, []) =
             (empty_accumulator,
              [SendAudioChunk (pcm16_bytes (concat (take 12 frames))), CommitAudioBuffer])"
    using twelve_frames [OF l12, of "[]"] by simp
  show ?thesis
    using a b thirty_frames [OF assms(1) ne]
    by (simp add: process_audio_input_def commit_count_def chunk_duration_24000
                  min_commit_duration_def)
qed

theorem thirty_frames_two_commits_witness:
  "process_audio_input 24000 (pushed (replicate 30 (replicate 1024 5000))) =
     Inr (\<lparr> accumulated_audio = replicate 6 (replicate 1024 5000),
             accumulated_duration = 32 / 125 \<rparr>,
          [SendAudioChunk (pcm16_bytes (concat (replicate 12 (replicate 1024 5000)))),
           CommitAudioBuffer,
           SendAudioChunk (pcm16_bytes (concat (replicate 12 (replicate 1024 5000)))),
           CommitAudioBuffer])"
proof -
  have h1: "length (replicate 30 (replicate 1024 (5000::rat))) = 30"
    by simp
  have h2: "\<forall>f \<in> set (replicate 30 (replicate 1024 (5000::rat))). length f = 1024"
    by simp
  show ?thesis
    using thirty_frames_two_commits [OF h1 h2]
    by (simp add: chunk_duration_24000)
qed

text \<open>
  Claim C3. In every iteration that reaches the concatenation (the accumulated duration
  has reached the minimum) and in which the accumulated frames concatenate to a
  zero-length array, no call is made on the client (neither \<^verbatim>\<open>send_audio_chunk\<close> nor
  \<^verbatim>\<open>commit_audio_buffer\<close>, whether connected or not) and the accumulated buffer and
  duration are reset to empty. (Below the minimum the loop does not concatenate: it
  keeps the frames and makes no call, see \<open>accumulate_below\<close>.)
\<close>

theorem empty_concat_skips_commit:
  assumes "min_commit_duration \<le> accumulated_duration acc + chunk_duration rate"
    and "concat (accumulated_audio acc @ [audio_data]) = []"
  shows "process_iteration rate (conn, Some audio_data) (acc, calls) = (empty_accumulator, calls)"
  using assms by (simp add: process_iteration_def Let_def)

theorem empty_concat_skips_commit_witness:
  "process_events 24000 (pushed (replicate 12 [])) (empty_accumulator, []) =
     (empty_accumulator, [])"
proof -
  let ?acc = "\<lparr> accumulated_audio = replicate 11 [],
                accumulated_duration = of_nat (length (replicate 11 ([] :: rat list))) * chunk_duration 24000 \<rparr>"
  have r: "replicate 12 ([] :: rat list) = replicate 11 [] @ [[]]"
    by (simp add: numeral_eq_Suc replicate_append_same)
  have first: "process_events 24000 (pushed (replicate 11 [])) (empty_accumulator, []) = (?acc, [])"
    by (rule fewer_than_twelve) simp
  have h1: "min_commit_duration \<le> accumulated_duration ?acc + chunk_duration 24000"
    by (simp add: chunk_duration_24000 min_commit_duration_def)
  have h2: "concat (accumulated_audio ?acc @ [[]]) = []"
    by simp
  have "process_events 24000 (pushed (replicate 12 [])) (empty_accumulator, [])
      = process_iteration 24000 (True, Some []) (?acc, [])"
    by (simp only: r pushed_append process_events_append first process_events_single)
  then show ?thesis
    using empty_concat_skips_commit [OF h1 h2, of True "[]"] by simp
qed

end
